theory Spec2Isabelle
  imports Main
begin

section \<open>The CloudWorx set-up script (init-scripts/init.py)\<close>

text \<open>
  The script runs four precondition checks in a fixed order and leaves the process with
  a stage-specific exit code as soon as one of them fails. This theory embeds the
  process runner \<open>run_cmd\<close>, the installer \<open>install_mkcert\<close> and the checks
  \<open>check_pwd\<close>, \<open>check_env\<close> and \<open>check_certs\<close>.

  Modelling boundary. Text is Python \<open>str\<close>: a \<^typ>\<open>char\<close> stands for one code point
  (below 256), files and pipes are read in text mode and hold decoded text whose only
  line terminator is the line feed. Calls to the operating system succeed, with one
  exception: creating a child process may raise, which is the fault that the source
  catches in \<open>run_cmd\<close>. \<open>sys.exit(n)\<close> is the outcome \<open>Exit n\<close>.
\<close>

subsection \<open>Text\<close>

definition nl :: string where
  "nl = [CHR 0x0A]"

definition cr :: string where
  "cr = [CHR 0x0D]"

text \<open>\<open>str.isspace\<close> on the code points below 256.\<close>

definition is_space :: "char \<Rightarrow> bool" where
  "is_space c =
     (let n = (of_char c :: nat)
      in (9 \<le> n \<and> n \<le> 13) \<or> (28 \<le> n \<and> n \<le> 32) \<or> n = 133 \<or> n = 160)"

text \<open>\<open>s.strip()\<close>: white space removed at both ends.\<close>

definition strip :: "string \<Rightarrow> string" where
  "strip s = rev (dropWhile is_space (rev (dropWhile is_space s)))"

text \<open>\<open>s.startswith(p)\<close>.\<close>

definition startswith :: "string \<Rightarrow> string \<Rightarrow> bool" where
  "startswith s p = (take (length p) s = p)"

text \<open>\<open>sep.join(xs)\<close>.\<close>

fun join :: "string \<Rightarrow> string list \<Rightarrow> string" where
  "join sep [] = []"
| "join sep [x] = x"
| "join sep (x # y # ys) = x @ sep @ join sep (y # ys)"

text \<open>
  Iterating a text file or pipe yields its lines, each one with its terminating line
  feed; only the last line may lack it.
\<close>

fun readlines :: "string \<Rightarrow> string list" where
  "readlines [] = []"
| "readlines (c # cs) =
     (if c = CHR 0x0A then [c] # readlines cs
      else (case readlines cs of [] \<Rightarrow> [[c]] | l # ls \<Rightarrow> (c # l) # ls))"

text \<open>\<open>s.find(c)\<close>: the index of the first occurrence, or \<open>-1\<close>.\<close>

fun find_char :: "string \<Rightarrow> char \<Rightarrow> int" where
  "find_char [] c = - 1"
| "find_char (x # xs) c =
     (if x = c then 0
      else (let i = find_char xs c in if i < 0 then - 1 else i + 1))"

text \<open>\<open>s[i:]\<close> for an index \<open>i\<close> that is not negative.\<close>

definition slice_from :: "string \<Rightarrow> int \<Rightarrow> string" where
  "slice_from s i = drop (nat i) s"

text \<open>\<open>key, val = line.split("=", 1)\<close> on a line that contains the separator.\<close>

definition split_eq :: "string \<Rightarrow> string \<times> string" where
  "split_eq line =
     (takeWhile (\<lambda>c. c \<noteq> CHR ''='') line, drop 1 (dropWhile (\<lambda>c. c \<noteq> CHR ''='') line))"

subsection \<open>Terminal, processes and the state of the run\<close>

text \<open>
  The four printers \<open>psuccess\<close>, \<open>pwarn\<close>, \<open>perr\<close>, \<open>pinfo\<close> are \<open>_print\<close> with a
  fixed prefix and colour; \<open>Dim\<close> is \<open>_print\<close> with \<open>color=Color.DIM\<close> and no prefix.
  The terminal is the list of calls made to it, oldest first: the rendering of colours
  is outside the model.
\<close>

datatype printer = Psuccess | Pwarn | Perr | Pinfo | Dim

datatype out =
    Print string
  | Say printer nat string string
  | Psec string
  | Prompt nat string

text \<open>
  \<open>Print t\<close> is \<open>print(t)\<close> (so \<open>Print []\<close> is the bare \<open>print()\<close>, a line break),
  \<open>Say p indent msg end\<close> is \<open>_print(msg, indent=indent, end=end)\<close> through printer
  \<open>p\<close>, \<open>Psec\<close> a section header and \<open>Prompt\<close> the question of \<open>yn_prompt\<close>.
\<close>

text \<open>A caught exception: the name of its class and its message.\<close>

datatype fault = Fault (cls: string) (msg: string)

text \<open>A child process that was created: the lines of its two pipes and its exit status.\<close>

record child =
  stdout :: "string list"
  stderr :: "string list"
  return_code :: int

datatype spawn = Spawned child | SpawnFault fault

datatype outcome = Returned | Exit int

text \<open>
  What the run finds around it and does not change: the project root
  (\<open>ROOT_DIR\<close>), the order in which this run iterates the set \<open>ENV_KEYS\<close> (Python
  leaves it to the hash seed), the executable search path (\<open>shutil.which\<close>), what
  \<open>Popen\<close> does with a command line, and the answer typed at the y/n prompt
  (the value that \<open>yn_prompt\<close> returns).
\<close>

record env =
  root_dir :: string
  keys_iter :: "string list"
  which :: "string \<Rightarrow> bool"
  popen :: "string \<Rightarrow> spawn"
  yn_prompt :: bool

text \<open>
  What the run changes: the working directory, the text files and directories under
  the project root (by their path relative to it), the terminal, and the command
  lines handed to \<open>Popen\<close> so far. \<open>check_env\<close> and \<open>check_certs\<close> run after
  \<open>check_pwd\<close>, with the working directory at the root, so a relative path of the
  source and \<open>ROOT_DIR / path\<close> name the same entry. A child process is known by its
  pipes and its exit status: what it writes to the file system is not part of the
  model. The one test that runs after a child, the existence of the two certificate
  files, follows \<open>mkcert -install\<close>, which installs the local authority in the trust
  stores and writes nothing under \<open>certs\<close>.
\<close>

record sys =
  cwd :: string
  files :: "string \<rightharpoonup> string"
  dirs :: "string set"
  tty :: "out list"
  cmds :: "string list"

definition emit :: "out \<Rightarrow> sys \<Rightarrow> sys" where
  "emit x s = s\<lparr>tty := tty s @ [x]\<rparr>"

definition py_print :: "string \<Rightarrow> sys \<Rightarrow> sys" where
  "py_print t = emit (Print t)"

definition psec :: "string \<Rightarrow> sys \<Rightarrow> sys" where
  "psec title = emit (Psec title)"

definition psuccess :: "string \<Rightarrow> nat \<Rightarrow> sys \<Rightarrow> sys" where
  "psuccess m indent = emit (Say Psuccess indent m nl)"

definition pwarn :: "string \<Rightarrow> nat \<Rightarrow> sys \<Rightarrow> sys" where
  "pwarn m indent = emit (Say Pwarn indent m nl)"

definition perr :: "string \<Rightarrow> nat \<Rightarrow> sys \<Rightarrow> sys" where
  "perr m indent = emit (Say Perr indent m nl)"

definition pinfo :: "string \<Rightarrow> nat \<Rightarrow> sys \<Rightarrow> sys" where
  "pinfo m indent = emit (Say Pinfo indent m nl)"

subsection \<open>The process runner\<close>

text \<open>
  The body shared by the two reading loops of \<open>run_cmd\<close>, for a line that is not
  blank after stripping: a progress line ends in a carriage return, and the first
  other line after one is preceded by \<open>print()\<close>.
\<close>

definition show_line :: "nat \<Rightarrow> string \<Rightarrow> bool \<times> sys \<Rightarrow> bool \<times> sys" where
  "show_line indent line st =
     (let (starts_w_progress, s) = st;
          (starts_w_progress, s) =
            (if startswith line ''Progress'' then (True, s)
             else if starts_w_progress then (False, py_print [] s)
             else (starts_w_progress, s))
      in (starts_w_progress,
          emit (Say Dim indent ('' | '' @ line) (if starts_w_progress then cr else nl)) s))"

text \<open>\<open>for line in process.stdout\<close>, with the flags \<open>printed\<close> and \<open>starts_w_progress\<close>.\<close>

fun read_stdout :: "nat \<Rightarrow> string list \<Rightarrow> bool \<times> bool \<times> sys \<Rightarrow> bool \<times> bool \<times> sys" where
  "read_stdout indent [] st = st"
| "read_stdout indent (raw # rest) (printed, st) =
     (let line = strip raw
      in if line \<noteq> [] then read_stdout indent rest (True, show_line indent line st)
         else read_stdout indent rest (printed, st))"

text \<open>\<open>for line in process.stderr\<close>.\<close>

fun read_stderr :: "nat \<Rightarrow> string list \<Rightarrow> bool \<times> sys \<Rightarrow> bool \<times> sys" where
  "read_stderr indent [] st = st"
| "read_stderr indent (raw # rest) st =
     (let line = strip raw
      in if line \<noteq> [] then read_stderr indent rest (show_line indent line st)
         else read_stderr indent rest st)"

definition run_cmd :: "env \<Rightarrow> string \<Rightarrow> nat \<Rightarrow> bool \<Rightarrow> sys \<Rightarrow> bool \<times> sys" where
  "run_cmd e cmd indent output s0 =
     (let s = s0\<lparr>cmds := cmds s0 @ [cmd]\<rparr>
      in case popen e cmd of
           SpawnFault f \<Rightarrow>
             (False,
              perr (''Failed to run command `'' @ cmd @ ''`: '' @ msg f) indent
                (py_print (cls f @ '' '' @ msg f) s))
         | Spawned process \<Rightarrow>
             if output then
               (let (printed, starts_w_progress, s) =
                      read_stdout indent (stdout process) (False, False, s);
                    rc = return_code process;
                    s = (if \<not> printed
                         then snd (read_stderr indent (stderr process) (starts_w_progress, s))
                         else s)
                in (rc = 0, s))
             else (return_code process = 0, s))"

subsection \<open>Installing the certificate tool\<close>

text \<open>The dictionary \<open>install_cmds\<close>, in its insertion order.\<close>

definition install_cmds :: "(string \<times> string) list" where
  "install_cmds =
     [(''brew'', ''brew install mkcert''),
      (''choco'', ''choco install mkcert -y''),
      (''scoop'', ''scoop install mkcert''),
      (''apt'', ''sudo apt update && sudo apt install -y mkcert''),
      (''dnf'', ''sudo dnf install -y mkcert''),
      (''pacman'', ''sudo pacman -S mkcert'')]"

text \<open>
  \<open>for pm, cmd in install_cmds.items()\<close>: the result is \<open>True\<close> when the loop was
  left by \<open>return True\<close> and \<open>False\<close> when it ran to its end.
\<close>

fun try_managers :: "env \<Rightarrow> (string \<times> string) list \<Rightarrow> sys \<Rightarrow> bool \<times> sys" where
  "try_managers e [] s = (False, s)"
| "try_managers e ((pm, cmd) # rest) s =
     (if which e pm then
        (let s = pinfo (''Installing via '' @ pm) 4 s;
             (ok, s) = run_cmd e cmd 6 True s
         in if ok then (True, psuccess ''mkcert installed successfully'' 4 s)
            else try_managers e rest s)
      else try_managers e rest s)"

definition install_mkcert :: "env \<Rightarrow> sys \<Rightarrow> bool \<times> sys" where
  "install_mkcert e s0 =
     (let s = pinfo ''Installing mkcert...'' 2 s0;
          (installed, s) = try_managers e install_cmds s
      in if installed then (True, s)
         else (let s = perr ''No supported package manager found'' 4 s;
                   s = pinfo ''Please install mkcert manually (https://github.com/FiloSottile/mkcert)'' 4 s
               in (False, s)))"

subsection \<open>The directory check\<close>



subsection \<open>The configuration check\<close>

definition ENV_KEYS :: "string set" where
  "ENV_KEYS = {''RECAPTCHA_SECRET_KEY'', ''ARGON_MEM_COST'', ''ARGON_TIME_COST'', ''ARGON_THREADS''}"

text \<open>\<open>for line in f\<close>, with the flag \<open>err\<close>.\<close>

fun read_env :: "env \<Rightarrow> string list \<Rightarrow> bool \<times> sys \<Rightarrow> bool \<times> sys" where
  "read_env e [] st = st"
| "read_env e (line # rest) (err, s) =
     (if startswith line ''#'' \<or> strip line = [] then read_env e rest (err, s)
      else if CHR ''='' \<notin> set line then
        read_env e rest (True, perr (''Invalid line in `.env`: '' @ strip line) 2 s)
      else if strip (fst (split_eq line)) \<notin> ENV_KEYS then
        read_env e rest
          (True,
           perr (''Unknown key in `.env`: '' @ fst (split_eq line) @ '' (expected one of ''
                 @ join '', '' (keys_iter e) @ '')'') 2 s)
      else if strip (snd (split_eq line)) = [] then
        read_env e rest
          (True, perr (''Empty value for key `.env`: '' @ fst (split_eq line)) 2 s)
      else read_env e rest (err, s))"

definition check_env :: "env \<Rightarrow> sys \<Rightarrow> outcome \<times> sys" where
  "check_env e s0 =
     (let s = psec ''Environment'' s0
      in case files s ''.env'' of
           Some text \<Rightarrow>
             (let (err, s) = read_env e (readlines text) (False, s)
              in if err then (Exit 2, s)
                 else (Returned, psuccess ''`.env` is valid'' 2 s))
         | None \<Rightarrow>
             (let s = pwarn ''No `.env` file found.'' 2 s
              in case files s ''.env.example'' of
                   None \<Rightarrow>
                     (Exit 2, perr ''Missing `.env.example` file. Cannot create `.env`'' 2 s)
                 | Some env_content \<Rightarrow>
                     (let s = s\<lparr>files := (files s)
                                (''.env'' \<mapsto>
                                 slice_from env_content (find_char env_content (CHR 0x0A) + 1))\<rparr>;
                          s = pinfo ''Created `.env` from `.env.example`'' 2 s;
                          s = perr ''Missing required values in `.env` (contact darragh0)'' 2 s
                      in (Exit 2, s))))"

subsection \<open>The certificate check\<close>

definition mkcert_install :: string where
  "mkcert_install = ''mkcert -install''"

definition mkcert_generate :: string where
  "mkcert_generate =
     ''mkcert -key-file certs/localhost-key.pem -cert-file certs/localhost.pem localhost''"

definition both_files_exist :: "sys \<Rightarrow> bool" where
  "both_files_exist s =
     (files s ''certs/localhost-key.pem'' \<noteq> None \<and> files s ''certs/localhost.pem'' \<noteq> None)"

text \<open>\<open>check_certs\<close> from \<open>pinfo("Installing local CA")\<close> to its end.\<close>

definition install_ca_and_generate :: "env \<Rightarrow> sys \<Rightarrow> outcome \<times> sys" where
  "install_ca_and_generate e s0 =
     (let s = pinfo ''Installing local CA'' 2 s0;
          (ok, s) = run_cmd e mkcert_install 4 True s
      in if \<not> ok then (Exit 3, perr ''Failed to install local CA'' 2 s)
         else if \<not> both_files_exist s then
           (let s = pinfo ''Generating certificates'' 2 s;
                (ok, s) = run_cmd e mkcert_generate 4 True s
            in if \<not> ok then (Exit 3, perr ''Failed to generate certificates'' 2 s)
               else (Returned, psuccess ''Certificates are valid'' 2 s))
         else (Returned, psuccess ''Certificates are valid'' 2 s))"

definition check_certs :: "env \<Rightarrow> sys \<Rightarrow> outcome \<times> sys" where
  "check_certs e s0 =
     (let s = psec ''Certificates'' s0;
          s = (if ''certs'' \<notin> dirs s
               then pinfo ''Created `certs` dir'' 2 (s\<lparr>dirs := insert ''certs'' (dirs s)\<rparr>)
               else s)
      in if \<not> which e ''mkcert'' then
           (let s = perr ''mkcert is not installed'' 2 s;
                s = emit (Prompt 2 ''Install mkcert?'') s;
                install = yn_prompt e
            in if \<not> install then
                 (Exit 3,
                  perr ''Please install mkcert to continue (https://github.com/FiloSottile/mkcert)'' 0 s)
               else
                 (let (installed, s) = install_mkcert e s
                  in if \<not> installed then
                       (Exit 3,
                        perr ''Failed to install mkcert. Please install manually (https://github.com/FiloSottile/mkcert)'' 0 s)
                     else install_ca_and_generate e s))
         else install_ca_and_generate e (psuccess ''mkcert is installed'' 2 s))"

subsection \<open>The vocabulary of the claims\<close>

text \<open>
  The definitions of this subsection are not code of the script: they name what the
  claims speak about, and the properties below relate the script to them.
\<close>

text \<open>
  A line of \<open>.env\<close> that is neither a comment nor blank and lacks the separator, or
  has a key outside \<open>ENV_KEYS\<close>, or has a value that is empty after trimming.
\<close>

definition offending :: "string \<Rightarrow> bool" where
  "offending line =
     (\<not> startswith line ''#'' \<and> strip line \<noteq> [] \<and>
      (CHR ''='' \<notin> set line
       \<or> strip (fst (split_eq line)) \<notin> ENV_KEYS
       \<or> strip (snd (split_eq line)) = []))"

text \<open>The error line that belongs to an offending line.\<close>

definition report_of :: "env \<Rightarrow> string \<Rightarrow> out" where
  "report_of e line =
     (if CHR ''='' \<notin> set line then
        Say Perr 2 (''Invalid line in `.env`: '' @ strip line) nl
      else if strip (fst (split_eq line)) \<notin> ENV_KEYS then
        Say Perr 2 (''Unknown key in `.env`: '' @ fst (split_eq line) @ '' (expected one of ''
                    @ join '', '' (keys_iter e) @ '')'') nl
      else Say Perr 2 (''Empty value for key `.env`: '' @ fst (split_eq line)) nl)"

text \<open>Some trimmed key stands on more than one line that is neither a comment nor blank.\<close>

definition key_repeats :: "string \<Rightarrow> bool" where
  "key_repeats text =
     (\<not> distinct (map (\<lambda>l. strip (fst (split_eq l)))
                    (filter (\<lambda>l. \<not> startswith l ''#'' \<and> strip l \<noteq> []) (readlines text))))"

text \<open>A text with its first line removed.\<close>

definition without_first_line :: "string \<Rightarrow> string" where
  "without_first_line text = concat (tl (readlines text))"

text \<open>The command line yields a child process that exits with status zero.\<close>

definition runs_ok :: "env \<Rightarrow> string \<Rightarrow> bool" where
  "runs_ok e cmd = (case popen e cmd of Spawned p \<Rightarrow> return_code p = 0 | SpawnFault f \<Rightarrow> False)"

text \<open>The install commands of the package managers that are on the search path, in order.\<close>

definition found :: "env \<Rightarrow> (string \<times> string) list \<Rightarrow> string list" where
  "found e ms = map snd (filter (\<lambda>(pm, cmd). which e pm) ms)"

text \<open>The found install commands up to and including the first one that succeeds.\<close>

definition attempted :: "env \<Rightarrow> (string \<times> string) list \<Rightarrow> string list" where
  "attempted e ms =
     takeWhile (\<lambda>c. \<not> runs_ok e c) (found e ms)
       @ take 1 (dropWhile (\<lambda>c. \<not> runs_ok e c) (found e ms))"

text \<open>
  A stretch of the run from \<open>s\<close> to \<open>s'\<close> that handed the command lines \<open>cs\<close> to
  \<open>Popen\<close> and changed nothing else but the terminal.
\<close>

definition ran :: "sys \<Rightarrow> sys \<Rightarrow> string list \<Rightarrow> bool" where
  "ran s s' cs \<longleftrightarrow>
     cwd s' = cwd s \<and> files s' = files s \<and> dirs s' = dirs s \<and> cmds s' = cmds s @ cs"

text \<open>The command lines handed to \<open>Popen\<close> between two states.\<close>

definition new_cmds :: "sys \<Rightarrow> sys \<Rightarrow> string list" where
  "new_cmds s s' = drop (length (cmds s)) (cmds s')"

text \<open>Some package manager on the search path installs the certificate tool.\<close>

definition installable :: "env \<Rightarrow> bool" where
  "installable e = (\<exists>c\<in>set (found e install_cmds). runs_ok e c)"

text \<open>What \<open>check_certs\<close> runs after the tool is there, and how that part ends.\<close>

definition generated :: "env \<Rightarrow> sys \<Rightarrow> string list" where
  "generated e s = (if runs_ok e mkcert_install \<and> \<not> both_files_exist s then [mkcert_generate] else [])"

definition certs_cmds :: "env \<Rightarrow> sys \<Rightarrow> string list" where
  "certs_cmds e s =
     (if which e ''mkcert'' then mkcert_install # generated e s
      else if \<not> yn_prompt e then []
      else if \<not> installable e then attempted e install_cmds
      else attempted e install_cmds @ mkcert_install # generated e s)"

definition ca_outcome :: "env \<Rightarrow> sys \<Rightarrow> outcome" where
  "ca_outcome e s =
     (if \<not> runs_ok e mkcert_install then Exit 3
      else if both_files_exist s then Returned
      else if runs_ok e mkcert_generate then Returned else Exit 3)"

subsection \<open>Sample runs\<close>

text \<open>A fresh checkout with the working directory at the project root.\<close>

definition sys0 :: sys where
  "sys0 = \<lparr>cwd = ''/srv/cloudworx'', files = Map.empty, dirs = {}, tty = [], cmds = []\<rparr>"

definition env_of :: "(string \<Rightarrow> bool) \<Rightarrow> (string \<Rightarrow> spawn) \<Rightarrow> bool \<Rightarrow> env" where
  "env_of w p a =
     \<lparr>root_dir = ''/srv/cloudworx'',
      keys_iter = [''ARGON_THREADS'', ''RECAPTCHA_SECRET_KEY'', ''ARGON_MEM_COST'', ''ARGON_TIME_COST''],
      which = w, popen = p, yn_prompt = a\<rparr>"

definition exits :: "string list \<Rightarrow> string list \<Rightarrow> int \<Rightarrow> spawn" where
  "exits out err rc = Spawned \<lparr>stdout = out, stderr = err, return_code = rc\<rparr>"

section \<open>Properties\<close>

subsection \<open>The process runner\<close>



text \<open>
  C2. When creating the child process raises, \<open>run_cmd\<close> prints the class name and
  the message of the fault, then an error line with the command and the message, and
  returns \<open>False\<close>: its result is an ordinary boolean, nothing is raised to the caller.
\<close>

theorem run_cmd_spawn_fault:
  "popen e cmd = SpawnFault f \<Longrightarrow>
   run_cmd e cmd indent output s =
     (False,
      s\<lparr>tty := tty s @ [Print (cls f @ '' '' @ msg f),
                         Say Perr indent (''Failed to run command `'' @ cmd @ ''`: '' @ msg f) nl],
        cmds := cmds s @ [cmd]\<rparr>)"
  by (simp add: run_cmd_def Let_def perr_def py_print_def emit_def)

theorem run_cmd_spawn_fault_witness:
  "run_cmd (env_of (\<lambda>n. True) (\<lambda>c. SpawnFault (Fault ''PermissionError'' ''denied'')) True)
       ''npm install'' 4 True sys0 =
     (False,
      sys0\<lparr>tty := [Print ''PermissionError denied'',
                    Say Perr 4 ''Failed to run command `npm install`: denied'' nl],
           cmds := [''npm install'']\<rparr>)"
  using run_cmd_spawn_fault
          [of "env_of (\<lambda>n. True) (\<lambda>c. SpawnFault (Fault ''PermissionError'' ''denied'')) True"
              "''npm install''" "Fault ''PermissionError'' ''denied''" 4 True sys0]
  by (simp add: env_of_def sys0_def)

text \<open>The reading loops only write to the terminal, and they can be cut at any line.\<close>

lemma show_line_progress:
  "startswith l ''Progress'' \<Longrightarrow>
   show_line i l (w, s) = (True, emit (Say Dim i ('' | '' @ l) cr) s)"
  by (simp add: show_line_def)

lemma show_line_after_progress:
  "\<not> startswith l ''Progress'' \<Longrightarrow>
   show_line i l (True, s) = (False, emit (Say Dim i ('' | '' @ l) nl) (py_print [] s))"
  by (simp add: show_line_def)

lemma show_line_tty:
  "\<exists>t. snd (show_line i l (w, s)) = s\<lparr>tty := tty s @ t\<rparr>"
  by (auto simp: show_line_def emit_def py_print_def intro: exI[of _ "[_]"] exI[of _ "[_, _]"])

lemma read_stdout_append:
  "read_stdout i (xs @ ys) st = read_stdout i ys (read_stdout i xs st)"
  by (induction i xs st rule: read_stdout.induct) (auto simp: Let_def)

lemma read_stderr_append:
  "read_stderr i (xs @ ys) st = read_stderr i ys (read_stderr i xs st)"
  by (induction i xs st rule: read_stderr.induct) (auto simp: Let_def)

lemma read_stderr_tty:
  "\<exists>t. snd (read_stderr i xs (w, s)) = s\<lparr>tty := tty s @ t\<rparr>"
proof (induction xs arbitrary: w s)
  case Nil
  show ?case by (auto intro: exI[of _ "[]"])
next
  case (Cons x xs)
  show ?case
  proof (cases "strip x = []")
    case True
    then show ?thesis using Cons.IH[of w s] by simp
  next
    case False
    obtain w1 s1 where sl: "show_line i (strip x) (w, s) = (w1, s1)" by (cases "show_line i (strip x) (w, s)")
    from show_line_tty[of i "strip x" w s] sl obtain t1 where s1: "s1 = s\<lparr>tty := tty s @ t1\<rparr>" by auto
    from Cons.IH[of w1 s1] obtain t2 where "snd (read_stderr i xs (w1, s1)) = s1\<lparr>tty := tty s1 @ t2\<rparr>" by auto
    with s1 False sl show ?thesis by (auto intro: exI[of _ "t1 @ t2"])
  qed
qed

lemma read_stdout_tty:
  "\<exists>t. snd (snd (read_stdout i xs (p, w, s))) = s\<lparr>tty := tty s @ t\<rparr>"
proof (induction xs arbitrary: p w s)
  case Nil
  show ?case by (auto intro: exI[of _ "[]"])
next
  case (Cons x xs)
  show ?case
  proof (cases "strip x = []")
    case True
    then show ?thesis using Cons.IH[of p w s] by simp
  next
    case False
    obtain w1 s1 where sl: "show_line i (strip x) (w, s) = (w1, s1)" by (cases "show_line i (strip x) (w, s)")
    from show_line_tty[of i "strip x" w s] sl obtain t1 where s1: "s1 = s\<lparr>tty := tty s @ t1\<rparr>" by auto
    from Cons.IH[of True w1 s1] obtain t2 where "snd (snd (read_stdout i xs (True, w1, s1))) = s1\<lparr>tty := tty s1 @ t2\<rparr>" by auto
    with s1 False sl show ?thesis by (auto intro: exI[of _ "t1 @ t2"])
  qed
qed

lemma read_stdout_blank:
  "\<forall>l\<in>set xs. strip l = [] \<Longrightarrow> read_stdout i xs st = st"
  by (induction i xs st rule: read_stdout.induct) (auto simp: Let_def)

lemma read_stdout_printed:
  "fst (read_stdout i xs (True, st)) = True"
  by (induction xs arbitrary: st) (auto simp: Let_def)

lemma read_stderr_pair:
  assumes a: "startswith (strip a) ''Progress''"
      and b: "strip b \<noteq> []" "\<not> startswith (strip b) ''Progress''"
  shows "\<exists>t1 t2. tty (snd (read_stderr i (pre @ a # b # post) (w, s))) =
           tty s @ t1 @ [Say Dim i ('' | '' @ strip a) cr, Print [],
                         Say Dim i ('' | '' @ strip b) nl] @ t2"
proof -
  obtain w1 s1 where pre: "read_stderr i pre (w, s) = (w1, s1)"
    by (cases "read_stderr i pre (w, s)")
  with read_stderr_tty[of i pre w s] obtain t1 where s1: "s1 = s\<lparr>tty := tty s @ t1\<rparr>"
    by auto
  from a have na: "strip a \<noteq> []" by (auto simp: startswith_def)
  define s2 where
    "s2 = emit (Say Dim i ('' | '' @ strip b) nl)
            (py_print [] (emit (Say Dim i ('' | '' @ strip a) cr) s1))"
  have step: "read_stderr i (a # b # post) (w1, s1) = read_stderr i post (False, s2)"
    using a b na by (simp add: show_line_progress show_line_after_progress s2_def)
  from read_stderr_tty[of i post False s2] obtain t2
    where "snd (read_stderr i post (False, s2)) = s2\<lparr>tty := tty s2 @ t2\<rparr>" by auto
  with step pre s1 show ?thesis
    by (auto simp: read_stderr_append s2_def emit_def py_print_def)
qed

lemma read_stdout_pair:
  assumes a: "startswith (strip a) ''Progress''"
      and b: "strip b \<noteq> []" "\<not> startswith (strip b) ''Progress''"
  shows "\<exists>t1 t2. read_stdout i (pre @ a # b # post) (p, w, s) =
           (True, fst (snd (read_stdout i (pre @ a # b # post) (p, w, s))),
            s\<lparr>tty := tty s @ t1 @ [Say Dim i ('' | '' @ strip a) cr, Print [],
                         Say Dim i ('' | '' @ strip b) nl] @ t2\<rparr>)"
proof -
  obtain p1 w1 s1 where pre: "read_stdout i pre (p, w, s) = (p1, w1, s1)"
    by (cases "read_stdout i pre (p, w, s)")
  with read_stdout_tty[of i pre p w s] obtain t1 where s1: "s1 = s\<lparr>tty := tty s @ t1\<rparr>"
    by auto
  from a have na: "strip a \<noteq> []" by (auto simp: startswith_def)
  define s2 where
    "s2 = emit (Say Dim i ('' | '' @ strip b) nl)
            (py_print [] (emit (Say Dim i ('' | '' @ strip a) cr) s1))"
  have step: "read_stdout i (a # b # post) (p1, w1, s1) = read_stdout i post (True, False, s2)"
    using a b na by (simp add: show_line_progress show_line_after_progress s2_def)
  obtain p3 w3 s3 where post: "read_stdout i post (True, False, s2) = (p3, w3, s3)"
    by (cases "read_stdout i post (True, False, s2)")
  from read_stdout_tty[of i post True False s2] post obtain t2
    where s3: "s3 = s2\<lparr>tty := tty s2 @ t2\<rparr>" by auto
  from read_stdout_printed[of i post "(False, s2)"] post have p3: "p3 = True" by simp
  from step pre s1 post s3 p3 show ?thesis
    by (auto simp: read_stdout_append s2_def emit_def py_print_def)
qed

text \<open>
  C8. With the output captured, a progress line directly followed by a line that is
  neither blank nor a progress line is rendered as the progress line ending in a
  carriage return, then \<open>print()\<close>, then the other line: the line break comes before
  the line that follows the progress. This holds for the pass over standard output,
  and for the pass over standard error that runs when standard output showed nothing.
\<close>

theorem progress_then_line_break:
  assumes spawned: "popen e cmd = Spawned p"
      and a: "startswith (strip a) ''Progress''"
      and b: "strip b \<noteq> []" "\<not> startswith (strip b) ''Progress''"
      and pass: "stdout p = pre @ a # b # post \<or>
                 ((\<forall>l\<in>set (stdout p). strip l = []) \<and> stderr p = pre @ a # b # post)"
  shows "\<exists>t1 t2. tty (snd (run_cmd e cmd indent True s)) =
           t1 @ [Say Dim indent ('' | '' @ strip a) cr, Print [],
                 Say Dim indent ('' | '' @ strip b) nl] @ t2"
proof -
  define s1 where "s1 = s\<lparr>cmds := cmds s @ [cmd]\<rparr>"
  from pass show ?thesis
  proof
    assume out: "stdout p = pre @ a # b # post"
    from read_stdout_pair[OF a b, of indent pre post False False s1] obtain t1 t2 w
      where "read_stdout indent (stdout p) (False, False, s1) =
               (True, w, s1\<lparr>tty := tty s1 @ t1 @ [Say Dim indent ('' | '' @ strip a) cr, Print [],
                         Say Dim indent ('' | '' @ strip b) nl] @ t2\<rparr>)"
      unfolding out by blast
    then have "tty (snd (run_cmd e cmd indent True s)) =
                 (tty s1 @ t1) @ [Say Dim indent ('' | '' @ strip a) cr, Print [],
                         Say Dim indent ('' | '' @ strip b) nl] @ t2"
      using spawned by (simp add: run_cmd_def s1_def)
    then show ?thesis by blast
  next
    assume "(\<forall>l\<in>set (stdout p). strip l = []) \<and> stderr p = pre @ a # b # post"
    then have blank: "read_stdout indent (stdout p) (False, False, s1) = (False, False, s1)"
      and err: "stderr p = pre @ a # b # post"
      by (simp_all add: read_stdout_blank)
    from read_stderr_pair[OF a b, of indent pre post False s1] obtain t1 t2
      where "tty (snd (read_stderr indent (stderr p) (False, s1))) =
               tty s1 @ t1 @ [Say Dim indent ('' | '' @ strip a) cr, Print [],
                         Say Dim indent ('' | '' @ strip b) nl] @ t2"
      unfolding err by blast
    then have "tty (snd (run_cmd e cmd indent True s)) =
                 (tty s1 @ t1) @ [Say Dim indent ('' | '' @ strip a) cr, Print [],
                         Say Dim indent ('' | '' @ strip b) nl] @ t2"
      using spawned blank by (simp add: run_cmd_def s1_def)
    then show ?thesis by blast
  qed
qed

theorem progress_then_line_break_witness:
  "startswith (strip (''Progress 2/2'' @ nl)) ''Progress''
   \<and> strip (''done'' @ nl) \<noteq> []
   \<and> \<not> startswith (strip (''done'' @ nl)) ''Progress''
   \<and> (\<exists>t1 t2. tty (snd (run_cmd
          (env_of (\<lambda>n. True)
             (\<lambda>c. exits [''Progress 1/2'' @ nl, ''Progress 2/2'' @ nl, ''done'' @ nl] [] 0) True)
          ''npm install'' 4 True sys0)) =
        t1 @ [Say Dim 4 '' | Progress 2/2'' cr, Print [], Say Dim 4 '' | done'' nl] @ t2)
   \<and> (\<exists>t1 t2. tty (snd (run_cmd
          (env_of (\<lambda>n. True)
             (\<lambda>c. exits [nl] [''Progress 1/2'' @ nl, ''Progress 2/2'' @ nl, ''done'' @ nl] 0) True)
          ''npm install'' 4 True sys0)) =
        t1 @ [Say Dim 4 '' | Progress 2/2'' cr, Print [], Say Dim 4 '' | done'' nl] @ t2)"
proof -
  have a: "startswith (strip (''Progress 2/2'' @ nl)) ''Progress''"
    by (simp add: strip_def is_space_def nl_def startswith_def)
  have b: "strip (''done'' @ nl) \<noteq> []" "\<not> startswith (strip (''done'' @ nl)) ''Progress''"
    by (simp_all add: strip_def is_space_def nl_def startswith_def)
  have blank: "strip nl = []"
    by (simp add: strip_def is_space_def nl_def)
  have sa: "strip (''Progress 2/2'' @ nl) = ''Progress 2/2''"
    and sb: "strip (''done'' @ nl) = ''done''"
    by (simp_all add: strip_def is_space_def nl_def)
  note out = progress_then_line_break
      [of "env_of (\<lambda>n. True)
             (\<lambda>c. exits [''Progress 1/2'' @ nl, ''Progress 2/2'' @ nl, ''done'' @ nl] [] 0) True"
          "''npm install''"
          "\<lparr>stdout = [''Progress 1/2'' @ nl, ''Progress 2/2'' @ nl, ''done'' @ nl],
            stderr = [], return_code = 0\<rparr>"
          "''Progress 2/2'' @ nl" "''done'' @ nl" "[''Progress 1/2'' @ nl]" "[]" 4 sys0, OF _ a b]
  note err = progress_then_line_break
      [of "env_of (\<lambda>n. True)
             (\<lambda>c. exits [nl] [''Progress 1/2'' @ nl, ''Progress 2/2'' @ nl, ''done'' @ nl] 0) True"
          "''npm install''"
          "\<lparr>stdout = [nl],
            stderr = [''Progress 1/2'' @ nl, ''Progress 2/2'' @ nl, ''done'' @ nl], return_code = 0\<rparr>"
          "''Progress 2/2'' @ nl" "''done'' @ nl" "[''Progress 1/2'' @ nl]" "[]" 4 sys0, OF _ a b]
  from out have o: "\<exists>t1 t2. tty (snd (run_cmd
          (env_of (\<lambda>n. True)
             (\<lambda>c. exits [''Progress 1/2'' @ nl, ''Progress 2/2'' @ nl, ''done'' @ nl] [] 0) True)
          ''npm install'' 4 True sys0)) =
        t1 @ [Say Dim 4 '' | Progress 2/2'' cr, Print [], Say Dim 4 '' | done'' nl] @ t2"
    unfolding sa sb by (simp add: env_of_def exits_def)
  from err blank have r: "\<exists>t1 t2. tty (snd (run_cmd
          (env_of (\<lambda>n. True)
             (\<lambda>c. exits [nl] [''Progress 1/2'' @ nl, ''Progress 2/2'' @ nl, ''done'' @ nl] 0) True)
          ''npm install'' 4 True sys0)) =
        t1 @ [Say Dim 4 '' | Progress 2/2'' cr, Print [], Say Dim 4 '' | done'' nl] @ t2"
    unfolding sa sb by (simp add: env_of_def exits_def)
  from a b o r show ?thesis by blast
qed

text \<open>What a call of \<open>run_cmd\<close> returns and leaves behind.\<close>

lemma ran_trans: "ran s s1 a \<Longrightarrow> ran s1 s2 b \<Longrightarrow> ran s s2 (a @ b)"
  by (simp add: ran_def)

lemma ran_emit: "ran s s' cs \<Longrightarrow> ran s (emit x s') cs"
  by (simp add: ran_def emit_def)

lemma ran_new_cmds: "ran s s' cs \<Longrightarrow> new_cmds s s' = cs"
  by (simp add: ran_def new_cmds_def)

lemma run_cmd_ran:
  "fst (run_cmd e c i out s) = runs_ok e c \<and> ran s (snd (run_cmd e c i out s)) [c]"
proof (cases "popen e c")
  case (SpawnFault f)
  then show ?thesis
    by (simp add: run_cmd_def runs_ok_def perr_def py_print_def emit_def ran_def)
next
  case (Spawned p)
  define s1 where "s1 = s\<lparr>cmds := cmds s @ [c]\<rparr>"
  have s1: "ran s s1 [c]" by (simp add: ran_def s1_def)
  show ?thesis
  proof (cases out)
    case False
    with Spawned show ?thesis
      by (simp add: run_cmd_def runs_ok_def ran_def)
  next
    case True
    obtain pr w s2 where so: "read_stdout i (stdout p) (False, False, s1) = (pr, w, s2)"
      by (cases "read_stdout i (stdout p) (False, False, s1)")
    with read_stdout_tty[of i "stdout p" False False s1] obtain t1
      where "s2 = s1\<lparr>tty := tty s1 @ t1\<rparr>" by auto
    then have s2: "ran s s2 [c]" using s1 by (simp add: ran_def)
    from read_stderr_tty[of i "stderr p" w s2] obtain t2
      where "snd (read_stderr i (stderr p) (w, s2)) = s2\<lparr>tty := tty s2 @ t2\<rparr>" by auto
    then have s3: "ran s (snd (read_stderr i (stderr p) (w, s2))) [c]"
      using s2 by (simp add: ran_def)
    from Spawned \<open>out\<close> so s2 s3 show ?thesis
      by (simp add: run_cmd_def runs_ok_def s1_def)
  qed
qed

subsection \<open>The configuration check\<close>

lemma strip_eq_Nil: "strip s = [] \<longleftrightarrow> (\<forall>c\<in>set s. is_space c)"
proof
  assume "strip s = []"
  then have all: "\<forall>c\<in>set (dropWhile is_space s). is_space c"
    by (simp add: strip_def dropWhile_eq_Nil_conv)
  show "\<forall>c\<in>set s. is_space c"
  proof (cases "dropWhile is_space s")
    case Nil
    then show ?thesis by (simp add: dropWhile_eq_Nil_conv)
  next
    case (Cons x xs)
    then have "\<not> is_space x" using hd_dropWhile[of is_space s] by auto
    with all Cons show ?thesis by simp
  qed
next
  assume "\<forall>c\<in>set s. is_space c"
  then show "strip s = []" by (auto simp: strip_def dest: set_dropWhileD)
qed

lemma read_env_spec:
  "read_env e ls (err, s) =
     (err \<or> (\<exists>l\<in>set ls. offending l),
      s\<lparr>tty := tty s @ map (report_of e) (filter offending ls)\<rparr>)"
proof (induction ls arbitrary: err s)
  case Nil
  show ?case by simp
next
  case (Cons l ls)
  show ?case
    by (simp add: Cons.IH offending_def report_of_def perr_def emit_def)
qed

lemma check_env_existing:
  assumes "files s ''.env'' = Some text"
  shows "check_env e s =
     (if \<exists>l\<in>set (readlines text). offending l then Exit 2 else Returned,
      s\<lparr>tty := tty s @ [Psec ''Environment'']
                  @ map (report_of e) (filter offending (readlines text))
                  @ (if \<exists>l\<in>set (readlines text). offending l then []
                     else [Say Psuccess 2 ''`.env` is valid'' nl])\<rparr>)"
  using assms
  by (simp add: check_env_def read_env_spec psec_def psuccess_def emit_def)

text \<open>
  C3. For an existing \<open>.env\<close>, the check prints one error line for every offending
  line, in the order of the file and nothing else between the header and the end; it
  leaves with exit code 2 when there is an offending line, however many valid lines
  stand around it, and otherwise accepts the file and returns.
\<close>

theorem every_offending_line_reported_once:
  assumes "files s ''.env'' = Some text"
  shows "tty (snd (check_env e s)) =
           tty s @ [Psec ''Environment'']
             @ map (report_of e) (filter offending (readlines text))
             @ (if \<exists>l\<in>set (readlines text). offending l then []
                else [Say Psuccess 2 ''`.env` is valid'' nl])
         \<and> fst (check_env e s) =
             (if \<exists>l\<in>set (readlines text). offending l then Exit 2 else Returned)"
  by (simp add: check_env_existing[OF assms])

theorem every_offending_line_reported_once_witness:
  "tty (snd (check_env (env_of (\<lambda>n. True) (\<lambda>c. exits [] [] 0) True)
        (sys0\<lparr>files := [''.env'' \<mapsto>
        ''# settings'' @ nl @ ''FOO=bar'' @ nl @ ''ARGON_THREADS=4'' @ nl @ ''broken'' @ nl
          @ ''ARGON_MEM_COST= '' @ nl]\<rparr>))) =
      [Psec ''Environment'',
       Say Perr 2 ''Unknown key in `.env`: FOO (expected one of ARGON_THREADS, RECAPTCHA_SECRET_KEY, ARGON_MEM_COST, ARGON_TIME_COST)'' nl,
       Say Perr 2 ''Invalid line in `.env`: broken'' nl,
       Say Perr 2 ''Empty value for key `.env`: ARGON_MEM_COST'' nl]
   \<and> fst (check_env (env_of (\<lambda>n. True) (\<lambda>c. exits [] [] 0) True)
        (sys0\<lparr>files := [''.env'' \<mapsto>
        ''# settings'' @ nl @ ''FOO=bar'' @ nl @ ''ARGON_THREADS=4'' @ nl @ ''broken'' @ nl
          @ ''ARGON_MEM_COST= '' @ nl]\<rparr>)) = Exit 2
   \<and> tty (snd (check_env (env_of (\<lambda>n. True) (\<lambda>c. exits [] [] 0) True)
        (sys0\<lparr>files := [''.env'' \<mapsto> ''# settings'' @ nl @ nl @ '' ARGON_THREADS = 4'' @ nl]\<rparr>))) =
      [Psec ''Environment'', Say Psuccess 2 ''`.env` is valid'' nl]
   \<and> fst (check_env (env_of (\<lambda>n. True) (\<lambda>c. exits [] [] 0) True)
        (sys0\<lparr>files := [''.env'' \<mapsto> ''# settings'' @ nl @ nl @ '' ARGON_THREADS = 4'' @ nl]\<rparr>))
       = Returned"
proof -
  have f: "filter offending (readlines
         (''# settings'' @ nl @ ''FOO=bar'' @ nl @ ''ARGON_THREADS=4'' @ nl @ ''broken'' @ nl
          @ ''ARGON_MEM_COST= '' @ nl)) =
        [''FOO=bar'' @ nl, ''broken'' @ nl, ''ARGON_MEM_COST= '' @ nl]"
    by (simp add: offending_def startswith_def strip_def is_space_def nl_def split_eq_def
          ENV_KEYS_def)
  have x: "(\<exists>l\<in>set (readlines
         (''# settings'' @ nl @ ''FOO=bar'' @ nl @ ''ARGON_THREADS=4'' @ nl @ ''broken'' @ nl
          @ ''ARGON_MEM_COST= '' @ nl)). offending l) = True"
    by (simp add: offending_def startswith_def strip_def is_space_def nl_def split_eq_def
          ENV_KEYS_def)
  have m: "map (report_of (env_of (\<lambda>n. True) (\<lambda>c. exits [] [] 0) True))
             [''FOO=bar'' @ nl, ''broken'' @ nl, ''ARGON_MEM_COST= '' @ nl] =
      [Say Perr 2 ''Unknown key in `.env`: FOO (expected one of ARGON_THREADS, RECAPTCHA_SECRET_KEY, ARGON_MEM_COST, ARGON_TIME_COST)'' nl,
       Say Perr 2 ''Invalid line in `.env`: broken'' nl,
       Say Perr 2 ''Empty value for key `.env`: ARGON_MEM_COST'' nl]"
    by (simp add: report_of_def env_of_def strip_def is_space_def nl_def split_eq_def
          ENV_KEYS_def)
  have f': "filter offending (readlines (''# settings'' @ nl @ nl @ '' ARGON_THREADS = 4'' @ nl)) = []"
    by (simp add: offending_def startswith_def strip_def is_space_def nl_def split_eq_def
          ENV_KEYS_def)
  have x': "(\<exists>l\<in>set (readlines (''# settings'' @ nl @ nl @ '' ARGON_THREADS = 4'' @ nl)).
               offending l) = False"
    by (simp add: offending_def startswith_def strip_def is_space_def nl_def split_eq_def
          ENV_KEYS_def)
  show ?thesis
    using every_offending_line_reported_once
      [of "sys0\<lparr>files := [''.env'' \<mapsto>
        ''# settings'' @ nl @ ''FOO=bar'' @ nl @ ''ARGON_THREADS=4'' @ nl @ ''broken'' @ nl
          @ ''ARGON_MEM_COST= '' @ nl]\<rparr>"
          "''# settings'' @ nl @ ''FOO=bar'' @ nl @ ''ARGON_THREADS=4'' @ nl @ ''broken'' @ nl
          @ ''ARGON_MEM_COST= '' @ nl"
          "env_of (\<lambda>n. True) (\<lambda>c. exits [] [] 0) True", unfolded f x m]
      every_offending_line_reported_once
      [of "sys0\<lparr>files := [''.env'' \<mapsto> ''# settings'' @ nl @ nl @ '' ARGON_THREADS = 4'' @ nl]\<rparr>"
          "''# settings'' @ nl @ nl @ '' ARGON_THREADS = 4'' @ nl"
          "env_of (\<lambda>n. True) (\<lambda>c. exits [] [] 0) True", unfolded f' x']
    by (simp add: sys0_def)
qed

text \<open>
  C10. A line of an existing \<open>.env\<close> that begins with white space followed by \<open>#\<close>
  is not skipped as a comment: when it has no separator it is reported as an invalid
  line, and the check leaves with exit code 2.
\<close>

theorem indented_hash_is_content:
  assumes env: "files s ''.env'' = Some text"
      and line: "line \<in> set (readlines text)"
      and shape: "line = ws @ CHR ''#'' # rest" "ws \<noteq> []" "\<forall>c\<in>set ws. is_space c"
      and no_sep: "CHR ''='' \<notin> set line"
  shows "fst (check_env e s) = Exit 2
         \<and> Say Perr 2 (''Invalid line in `.env`: '' @ strip line) nl
             \<in> set (tty (snd (check_env e s)))"
proof -
  have hash: "\<not> is_space (CHR ''#'')" by (simp add: is_space_def)
  from shape obtain w ws' where ws: "ws = w # ws'" "is_space w" by (cases ws) auto
  with hash have "w \<noteq> CHR ''#''" by auto
  with shape ws have not_comment: "\<not> startswith line ''#''" by (simp add: startswith_def)
  from shape hash have not_blank: "strip line \<noteq> []" by (auto simp: strip_eq_Nil)
  from not_comment not_blank no_sep have off: "offending line" by (simp add: offending_def)
  from no_sep have rep: "report_of e line = Say Perr 2 (''Invalid line in `.env`: '' @ strip line) nl"
    by (simp add: report_of_def)
  from off line have ex: "\<exists>l\<in>set (readlines text). offending l" by blast
  from off line have "report_of e line \<in> set (map (report_of e) (filter offending (readlines text)))"
    by simp
  with rep ex show ?thesis by (simp add: check_env_existing[OF env])
qed

theorem indented_hash_is_content_witness:
  "files (sys0\<lparr>files := [''.env'' \<mapsto> ''ARGON_THREADS=4'' @ nl @ ''  # note'' @ nl]\<rparr>) ''.env''
     = Some (''ARGON_THREADS=4'' @ nl @ ''  # note'' @ nl)
   \<and> ''  # note'' @ nl \<in> set (readlines (''ARGON_THREADS=4'' @ nl @ ''  # note'' @ nl))
   \<and> ''  # note'' @ nl = ''  '' @ CHR ''#'' # ('' note'' @ nl)
   \<and> is_space (CHR '' '')
   \<and> CHR ''='' \<notin> set (''  # note'' @ nl)
   \<and> fst (check_env (env_of (\<lambda>n. True) (\<lambda>c. exits [] [] 0) True)
        (sys0\<lparr>files := [''.env'' \<mapsto> ''ARGON_THREADS=4'' @ nl @ ''  # note'' @ nl]\<rparr>)) = Exit 2
   \<and> Say Perr 2 ''Invalid line in `.env`: # note'' nl
       \<in> set (tty (snd (check_env (env_of (\<lambda>n. True) (\<lambda>c. exits [] [] 0) True)
            (sys0\<lparr>files := [''.env'' \<mapsto> ''ARGON_THREADS=4'' @ nl @ ''  # note'' @ nl]\<rparr>))))"
proof -
  have h1: "files (sys0\<lparr>files := [''.env'' \<mapsto> ''ARGON_THREADS=4'' @ nl @ ''  # note'' @ nl]\<rparr>) ''.env''
     = Some (''ARGON_THREADS=4'' @ nl @ ''  # note'' @ nl)"
    by simp
  have h2: "''  # note'' @ nl \<in> set (readlines (''ARGON_THREADS=4'' @ nl @ ''  # note'' @ nl))"
    by (simp add: nl_def)
  have h3: "''  # note'' @ nl = ''  '' @ CHR ''#'' # ('' note'' @ nl)"
    by simp
  have h4: "''  '' \<noteq> []"
    by simp
  have h5: "\<forall>c\<in>set ''  ''. is_space c"
    by (simp add: is_space_def)
  have h6: "CHR ''='' \<notin> set (''  # note'' @ nl)"
    by (simp add: nl_def)
  have st: "strip (''  # note'' @ nl) = ''# note''"
    by (simp add: strip_def is_space_def nl_def)
  from indented_hash_is_content
         [OF h1 h2 h3 h4 h5 h6, of "env_of (\<lambda>n. True) (\<lambda>c. exits [] [] 0) True", unfolded st]
       h2 h3 h5 h6
  show ?thesis by simp
qed

text \<open>
  C7 as it is stated fails. A file whose two lines set the same key to two values is
  accepted.
\<close>

theorem repeated_key_accepted:
  "key_repeats (''ARGON_THREADS=1'' @ nl @ ''ARGON_THREADS=2'' @ nl)
   \<and> fst (check_env (env_of (\<lambda>n. True) (\<lambda>c. exits [] [] 0) True)
        (sys0\<lparr>files := [''.env'' \<mapsto> ''ARGON_THREADS=1'' @ nl @ ''ARGON_THREADS=2'' @ nl]\<rparr>))
       = Returned"
  by (simp add: key_repeats_def check_env_def psec_def psuccess_def emit_def startswith_def
        strip_def is_space_def nl_def split_eq_def ENV_KEYS_def sys0_def)

text \<open>
  C7, as amended. The check does not compare keys across lines. For an existing
  \<open>.env\<close> in which a trimmed key repeats, it leaves with exit code 2 exactly when
  some line is offending by itself, and returns otherwise.
\<close>

theorem repeated_key_rejected_iff_offending_line:
  assumes "files s ''.env'' = Some text" and "key_repeats text"
  shows "(fst (check_env e s) = Exit 2) = (\<exists>l\<in>set (readlines text). offending l)
         \<and> (fst (check_env e s) \<noteq> Exit 2 \<longrightarrow> fst (check_env e s) = Returned)"
  by (simp add: check_env_existing[OF assms(1)])

theorem repeated_key_rejected_iff_offending_line_witness:
  "files (sys0\<lparr>files := [''.env'' \<mapsto> ''ARGON_THREADS=1'' @ nl @ ''ARGON_THREADS='' @ nl]\<rparr>) ''.env''
     = Some (''ARGON_THREADS=1'' @ nl @ ''ARGON_THREADS='' @ nl)
   \<and> key_repeats (''ARGON_THREADS=1'' @ nl @ ''ARGON_THREADS='' @ nl)
   \<and> offending (''ARGON_THREADS='' @ nl)
   \<and> fst (check_env (env_of (\<lambda>n. True) (\<lambda>c. exits [] [] 0) True)
        (sys0\<lparr>files := [''.env'' \<mapsto> ''ARGON_THREADS=1'' @ nl @ ''ARGON_THREADS='' @ nl]\<rparr>))
       = Exit 2"
proof -
  have h1: "files (sys0\<lparr>files := [''.env'' \<mapsto> ''ARGON_THREADS=1'' @ nl @ ''ARGON_THREADS='' @ nl]\<rparr>) ''.env''
     = Some (''ARGON_THREADS=1'' @ nl @ ''ARGON_THREADS='' @ nl)"
    by simp
  have h2: "key_repeats (''ARGON_THREADS=1'' @ nl @ ''ARGON_THREADS='' @ nl)"
    by (simp add: key_repeats_def startswith_def strip_def is_space_def nl_def split_eq_def)
  have off: "offending (''ARGON_THREADS='' @ nl)"
    by (simp add: offending_def startswith_def strip_def is_space_def nl_def split_eq_def
          ENV_KEYS_def)
  have x: "(\<exists>l\<in>set (readlines (''ARGON_THREADS=1'' @ nl @ ''ARGON_THREADS='' @ nl)). offending l) = True"
    by (simp add: offending_def startswith_def strip_def is_space_def nl_def split_eq_def
          ENV_KEYS_def)
  from repeated_key_rejected_iff_offending_line
         [OF h1 h2, of "env_of (\<lambda>n. True) (\<lambda>c. exits [] [] 0) True", unfolded x]
       h1 h2 off
  show ?thesis by simp
qed

text \<open>Creating \<open>.env\<close> from the template.\<close>

lemma find_char_found: "c \<in> set s \<Longrightarrow> 0 \<le> find_char s c"
  by (induction s) (auto simp: Let_def)

lemma find_char_missing: "c \<notin> set s \<Longrightarrow> find_char s c = - 1"
  by (induction s) (auto simp: Let_def)

lemma concat_readlines: "concat (readlines s) = s"
  by (induction s) (auto split: list.splits)

lemma readlines_Nil: "readlines s = [] \<longleftrightarrow> s = []"
  by (cases s) (auto split: list.splits)

lemma slice_after_first_newline:
  "CHR 0x0A \<in> set t \<Longrightarrow>
   slice_from t (find_char t (CHR 0x0A) + 1) = without_first_line t"
proof (induction t)
  case Nil
  then show ?case by simp
next
  case (Cons c cs)
  show ?case
  proof (cases "c = CHR 0x0A")
    case True
    then show ?thesis by (simp add: slice_from_def without_first_line_def concat_readlines)
  next
    case False
    with Cons.prems have mem: "CHR 0x0A \<in> set cs" by simp
    then have pos: "0 \<le> find_char cs (CHR 0x0A)" by (rule find_char_found)
    from mem have "readlines cs \<noteq> []" by (auto simp: readlines_Nil)
    then obtain l ls where ls: "readlines cs = l # ls" by (cases "readlines cs") auto
    from Cons.IH[OF mem] have "drop (nat (find_char cs (CHR 0x0A) + 1)) cs = concat ls"
      by (simp add: slice_from_def without_first_line_def ls)
    moreover from pos have "nat (find_char cs (CHR 0x0A) + 1 + 1) = Suc (nat (find_char cs (CHR 0x0A) + 1))"
      by simp
    ultimately show ?thesis using False pos
      by (simp add: slice_from_def without_first_line_def ls Let_def)
  qed
qed

lemma slice_without_newline:
  "CHR 0x0A \<notin> set t \<Longrightarrow> slice_from t (find_char t (CHR 0x0A) + 1) = t"
  by (simp add: find_char_missing slice_from_def)

lemma without_first_line_single:
  "CHR 0x0A \<notin> set t \<Longrightarrow> without_first_line t = []"
proof (induction t)
  case Nil
  show ?case by (simp add: without_first_line_def)
next
  case (Cons c cs)
  then have "CHR 0x0A \<notin> set cs" "c \<noteq> CHR 0x0A" by auto
  with Cons.IH show ?case
    by (cases "readlines cs") (auto simp: without_first_line_def)
qed

lemma check_env_creates:
  assumes "files s ''.env'' = None" "files s ''.env.example'' = Some t"
  shows "fst (check_env e s) = Exit 2
         \<and> files (snd (check_env e s)) =
             (files s)(''.env'' \<mapsto> slice_from t (find_char t (CHR 0x0A) + 1))"
  using assms
  by (simp add: check_env_def psec_def pwarn_def pinfo_def perr_def emit_def)

text \<open>
  C4. With \<open>.env\<close> absent and a template of one line without a line feed,
  \<open>find\<close> returns \<open>-1\<close> and the slice starts at 0: the check writes the whole
  template, where the template without its first line is empty. It leaves with exit
  code 2, as it does for every template. For a template that has a line feed the
  written text is the template without its first line
  (\<open>slice_after_first_newline\<close>).
\<close>

theorem template_without_newline_kept_whole:
  "files (snd (check_env e (sys0\<lparr>files := [''.env.example'' \<mapsto> ''# header'']\<rparr>))) ''.env''
     = Some ''# header''
   \<and> without_first_line ''# header'' = []
   \<and> fst (check_env e (sys0\<lparr>files := [''.env.example'' \<mapsto> ''# header'']\<rparr>)) = Exit 2"
  by (simp add: check_env_creates slice_from_def without_first_line_def)

subsection \<open>The certificate check\<close>

lemma try_managers_ran:
  "fst (try_managers e ms s) = (\<exists>c\<in>set (found e ms). runs_ok e c)
   \<and> ran s (snd (try_managers e ms s)) (attempted e ms)"
proof (induction ms arbitrary: s)
  case Nil
  show ?case by (simp add: found_def attempted_def ran_def)
next
  case (Cons m ms)
  obtain pm cmd where m: "m = (pm, cmd)" by (cases m)
  show ?case
  proof (cases "which e pm")
    case False
    with Cons.IH[of s] m show ?thesis by (simp add: found_def attempted_def)
  next
    case True
    define s1 where "s1 = pinfo (''Installing via '' @ pm) 4 s"
    obtain ok s2 where run: "run_cmd e cmd 6 True s1 = (ok, s2)"
      by (cases "run_cmd e cmd 6 True s1")
    with run_cmd_ran[of e cmd 6 True s1] have ok: "ok = runs_ok e cmd" and "ran s1 s2 [cmd]"
      by simp_all
    then have s2: "ran s s2 [cmd]" by (simp add: ran_def s1_def pinfo_def emit_def)
    show ?thesis
    proof (cases "runs_ok e cmd")
      case True
      with \<open>which e pm\<close> m run ok s2 show ?thesis
        by (simp add: found_def attempted_def s1_def psuccess_def ran_emit)
    next
      case False
      from Cons.IH[of s2] s2
      have "ran s (snd (try_managers e ms s2)) ([cmd] @ attempted e ms)"
        by (blast intro: ran_trans)
      with Cons.IH[of s2] False \<open>which e pm\<close> m run ok show ?thesis
        by (simp add: found_def attempted_def s1_def)
    qed
  qed
qed

lemma install_mkcert_ran:
  "fst (install_mkcert e s) = (\<exists>c\<in>set (found e install_cmds). runs_ok e c)
   \<and> ran s (snd (install_mkcert e s)) (attempted e install_cmds)"
proof -
  define s1 where "s1 = pinfo ''Installing mkcert...'' 2 s"
  obtain ok s2 where t: "try_managers e install_cmds s1 = (ok, s2)"
    by (cases "try_managers e install_cmds s1")
  with try_managers_ran[of e install_cmds s1]
  have ok: "ok = (\<exists>c\<in>set (found e install_cmds). runs_ok e c)"
    and "ran s1 s2 (attempted e install_cmds)" by simp_all
  then have "ran s s2 (attempted e install_cmds)"
    by (simp add: ran_def s1_def pinfo_def emit_def)
  with t ok show ?thesis
    by (simp add: install_mkcert_def s1_def pinfo_def perr_def ran_emit)
qed

lemma both_files_exist_ran: "ran s s' cs \<Longrightarrow> both_files_exist s' = both_files_exist s"
  by (simp add: ran_def both_files_exist_def)

lemma install_ca_and_generate_ran:
  "fst (install_ca_and_generate e s) =
     (if \<not> runs_ok e mkcert_install then Exit 3
      else if both_files_exist s then Returned
      else if runs_ok e mkcert_generate then Returned else Exit 3)
   \<and> ran s (snd (install_ca_and_generate e s)) (mkcert_install # generated e s)"
proof -
  define s1 where "s1 = pinfo ''Installing local CA'' 2 s"
  obtain ok s2 where r1: "run_cmd e mkcert_install 4 True s1 = (ok, s2)"
    by (cases "run_cmd e mkcert_install 4 True s1")
  with run_cmd_ran[of e mkcert_install 4 True s1]
  have ok: "ok = runs_ok e mkcert_install" and "ran s1 s2 [mkcert_install]" by simp_all
  then have s2: "ran s s2 [mkcert_install]" by (simp add: ran_def s1_def pinfo_def emit_def)
  define s3 where "s3 = pinfo ''Generating certificates'' 2 s2"
  obtain ok' s4 where r2: "run_cmd e mkcert_generate 4 True s3 = (ok', s4)"
    by (cases "run_cmd e mkcert_generate 4 True s3")
  with run_cmd_ran[of e mkcert_generate 4 True s3]
  have ok': "ok' = runs_ok e mkcert_generate" and "ran s3 s4 [mkcert_generate]" by simp_all
  then have "ran s2 s4 [mkcert_generate]" by (simp add: ran_def s3_def pinfo_def emit_def)
  with s2 have s4: "ran s s4 [mkcert_install, mkcert_generate]"
    using ran_trans by fastforce
  from r1 r2 ok ok' s2 s4 both_files_exist_ran[OF s2] show ?thesis
    by (simp add: install_ca_and_generate_def s1_def s3_def generated_def pinfo_def
          perr_def psuccess_def ran_emit)
qed

lemma check_certs_spec:
  "fst (check_certs e s) =
     (if \<not> which e ''mkcert'' \<and> (\<not> yn_prompt e \<or> \<not> installable e) then Exit 3
      else ca_outcome e s)
   \<and> new_cmds s (snd (check_certs e s)) = certs_cmds e s
   \<and> files (snd (check_certs e s)) = files s"
proof -
  define s1 where "s1 = psec ''Certificates'' s"
  define s2 where
    "s2 = (if ''certs'' \<notin> dirs s1
           then pinfo ''Created `certs` dir'' 2 (s1\<lparr>dirs := insert ''certs'' (dirs s1)\<rparr>)
           else s1)"
  have s2: "files s2 = files s" "cmds s2 = cmds s"
    by (simp_all add: s2_def s1_def psec_def pinfo_def emit_def)
  then have b2: "both_files_exist s2 = both_files_exist s"
    by (simp add: both_files_exist_def)
  have def: "check_certs e s =
     (if \<not> which e ''mkcert'' then
        (let s = perr ''mkcert is not installed'' 2 s2;
             s = emit (Prompt 2 ''Install mkcert?'') s
         in if \<not> yn_prompt e then
              (Exit 3,
               perr ''Please install mkcert to continue (https://github.com/FiloSottile/mkcert)'' 0 s)
            else
              (let (installed, s) = install_mkcert e s
               in if \<not> installed then
                    (Exit 3,
                     perr ''Failed to install mkcert. Please install manually (https://github.com/FiloSottile/mkcert)'' 0 s)
                  else install_ca_and_generate e s))
      else install_ca_and_generate e (psuccess ''mkcert is installed'' 2 s2))"
    by (simp add: check_certs_def s2_def s1_def Let_def)
  show ?thesis
  proof (cases "which e ''mkcert''")
    case True
    define s3 where "s3 = psuccess ''mkcert is installed'' 2 s2"
    have s3: "files s3 = files s" "cmds s3 = cmds s" "both_files_exist s3 = both_files_exist s"
      using s2 by (simp_all add: s3_def psuccess_def emit_def both_files_exist_def)
    from install_ca_and_generate_ran[of e s3] s3 True show ?thesis
      unfolding def s3_def[symmetric]
      by (simp add: ran_def new_cmds_def certs_cmds_def ca_outcome_def generated_def)
  next
    case False
    define s3 where
      "s3 = emit (Prompt 2 ''Install mkcert?'') (perr ''mkcert is not installed'' 2 s2)"
    have s3: "files s3 = files s" "cmds s3 = cmds s"
      using s2 by (simp_all add: s3_def perr_def emit_def)
    have def': "check_certs e s =
       (if \<not> yn_prompt e then
          (Exit 3,
           perr ''Please install mkcert to continue (https://github.com/FiloSottile/mkcert)'' 0 s3)
        else
          (let (installed, s) = install_mkcert e s3
           in if \<not> installed then
                (Exit 3,
                 perr ''Failed to install mkcert. Please install manually (https://github.com/FiloSottile/mkcert)'' 0 s)
              else install_ca_and_generate e s))"
      using False unfolding def s3_def by (simp add: Let_def)
    show ?thesis
    proof (cases "yn_prompt e")
      case no: False
      with False s3 show ?thesis
        unfolding def' by (simp add: new_cmds_def certs_cmds_def perr_def emit_def)
    next
      case yes: True
      obtain ok s4 where inst: "install_mkcert e s3 = (ok, s4)"
        by (cases "install_mkcert e s3")
      with install_mkcert_ran[of e s3]
      have ok: "ok = installable e" and r4: "ran s3 s4 (attempted e install_cmds)"
        by (simp_all add: installable_def)
      from r4 s3 have s4: "files s4 = files s" "cmds s4 = cmds s @ attempted e install_cmds"
        by (simp_all add: ran_def)
      then have b4: "both_files_exist s4 = both_files_exist s"
        by (simp add: both_files_exist_def)
      show ?thesis
      proof (cases "installable e")
        case False
        with \<open>\<not> which e ''mkcert''\<close> yes inst ok s4 show ?thesis
          unfolding def' by (simp add: new_cmds_def certs_cmds_def perr_def emit_def)
      next
        case True
        with install_ca_and_generate_ran[of e s4] \<open>\<not> which e ''mkcert''\<close> yes inst ok s4 b4
        show ?thesis
          unfolding def'
          by (simp add: ran_def new_cmds_def certs_cmds_def ca_outcome_def generated_def)
      qed
    qed
  qed
qed







text \<open>
  C6 as it is stated fails. With \<open>brew\<close> and \<open>choco\<close> on the search path and the
  install command of \<open>brew\<close> failing, the installer goes on to \<open>choco\<close>, reports
  success, and the check passes instead of leaving with exit code 3.
\<close>

theorem second_manager_tried_after_first_fails:
  "\<not> which (env_of (\<lambda>n. n = ''brew'' \<or> n = ''choco'')
              (\<lambda>c. if c = ''brew install mkcert'' then exits [] [''Error'' @ nl] 1
                    else exits [] [] 0) True) ''mkcert''
   \<and> which (env_of (\<lambda>n. n = ''brew'' \<or> n = ''choco'')
              (\<lambda>c. if c = ''brew install mkcert'' then exits [] [''Error'' @ nl] 1
                    else exits [] [] 0) True) ''brew''
   \<and> \<not> fst (run_cmd (env_of (\<lambda>n. n = ''brew'' \<or> n = ''choco'')
              (\<lambda>c. if c = ''brew install mkcert'' then exits [] [''Error'' @ nl] 1
                    else exits [] [] 0) True) ''brew install mkcert'' 6 True sys0)
   \<and> fst (install_mkcert (env_of (\<lambda>n. n = ''brew'' \<or> n = ''choco'')
              (\<lambda>c. if c = ''brew install mkcert'' then exits [] [''Error'' @ nl] 1
                    else exits [] [] 0) True) sys0)
   \<and> cmds (snd (install_mkcert (env_of (\<lambda>n. n = ''brew'' \<or> n = ''choco'')
              (\<lambda>c. if c = ''brew install mkcert'' then exits [] [''Error'' @ nl] 1
                    else exits [] [] 0) True) sys0))
       = [''brew install mkcert'', ''choco install mkcert -y'']
   \<and> fst (check_certs (env_of (\<lambda>n. n = ''brew'' \<or> n = ''choco'')
              (\<lambda>c. if c = ''brew install mkcert'' then exits [] [''Error'' @ nl] 1
                    else exits [] [] 0) True) sys0) = Returned"
  by (simp add: check_certs_def install_mkcert_def install_cmds_def install_ca_and_generate_def
        run_cmd_def both_files_exist_def mkcert_install_def mkcert_generate_def show_line_def
        startswith_def strip_def is_space_def nl_def
        psec_def pinfo_def psuccess_def perr_def py_print_def emit_def env_of_def exits_def sys0_def)

text \<open>
  C6, as amended. \<open>install_mkcert\<close> goes through the package managers in order and
  runs the install command of every one that is on the search path until one
  succeeds; it reports success exactly when one of them succeeds. With the tool
  absent and the installation accepted, the check leaves with exit code 3 when no
  found manager succeeds, which includes the case that none is found, and goes on to
  install the local CA when one does.
\<close>

theorem install_tries_found_managers_in_turn:
  "fst (install_mkcert e s) = (\<exists>c\<in>set (found e install_cmds). runs_ok e c)
   \<and> new_cmds s (snd (install_mkcert e s)) =
       takeWhile (\<lambda>c. \<not> runs_ok e c) (found e install_cmds)
         @ take 1 (dropWhile (\<lambda>c. \<not> runs_ok e c) (found e install_cmds))
   \<and> (\<not> which e ''mkcert'' \<and> yn_prompt e \<longrightarrow>
        (if \<exists>c\<in>set (found e install_cmds). runs_ok e c
         then mkcert_install \<in> set (new_cmds s (snd (check_certs e s)))
         else fst (check_certs e s) = Exit 3))"
  using install_mkcert_ran[of e s] check_certs_spec[of e s]
  by (simp add: ran_new_cmds attempted_def installable_def certs_cmds_def)

theorem install_tries_found_managers_in_turn_witness:
  "\<not> which (env_of (\<lambda>n. n = ''apt'') (\<lambda>c. exits [] [''E: no package'' @ nl] 100) True) ''mkcert''
   \<and> yn_prompt (env_of (\<lambda>n. n = ''apt'') (\<lambda>c. exits [] [''E: no package'' @ nl] 100) True)
   \<and> \<not> fst (install_mkcert
              (env_of (\<lambda>n. n = ''apt'') (\<lambda>c. exits [] [''E: no package'' @ nl] 100) True) sys0)
   \<and> new_cmds sys0 (snd (install_mkcert
              (env_of (\<lambda>n. n = ''apt'') (\<lambda>c. exits [] [''E: no package'' @ nl] 100) True) sys0))
       = [''sudo apt update && sudo apt install -y mkcert'']
   \<and> fst (check_certs
              (env_of (\<lambda>n. n = ''apt'') (\<lambda>c. exits [] [''E: no package'' @ nl] 100) True) sys0)
       = Exit 3
   \<and> \<not> which (env_of (\<lambda>n. n = ''dnf'' \<or> n = ''pacman'')
              (\<lambda>c. if c = ''sudo dnf install -y mkcert'' then exits [] [] 1 else exits [] [] 0)
              True) ''mkcert''
   \<and> fst (install_mkcert (env_of (\<lambda>n. n = ''dnf'' \<or> n = ''pacman'')
              (\<lambda>c. if c = ''sudo dnf install -y mkcert'' then exits [] [] 1 else exits [] [] 0)
              True) sys0)
   \<and> new_cmds sys0 (snd (install_mkcert (env_of (\<lambda>n. n = ''dnf'' \<or> n = ''pacman'')
              (\<lambda>c. if c = ''sudo dnf install -y mkcert'' then exits [] [] 1 else exits [] [] 0)
              True) sys0))
       = [''sudo dnf install -y mkcert'', ''sudo pacman -S mkcert'']
   \<and> mkcert_install \<in> set (new_cmds sys0 (snd (check_certs (env_of (\<lambda>n. n = ''dnf'' \<or> n = ''pacman'')
              (\<lambda>c. if c = ''sudo dnf install -y mkcert'' then exits [] [] 1 else exits [] [] 0)
              True) sys0)))"
proof -
  have f: "found (env_of (\<lambda>n. n = ''apt'') (\<lambda>c. exits [] [''E: no package'' @ nl] 100) True)
             install_cmds = [''sudo apt update && sudo apt install -y mkcert'']"
    by (simp add: found_def install_cmds_def env_of_def)
  have r: "\<And>c. runs_ok (env_of (\<lambda>n. n = ''apt'') (\<lambda>c. exits [] [''E: no package'' @ nl] 100) True) c
             = False"
    by (simp add: runs_ok_def env_of_def exits_def)
  have w: "\<not> which (env_of (\<lambda>n. n = ''apt'') (\<lambda>c. exits [] [''E: no package'' @ nl] 100) True) ''mkcert''"
    "yn_prompt (env_of (\<lambda>n. n = ''apt'') (\<lambda>c. exits [] [''E: no package'' @ nl] 100) True)"
    by (simp_all add: env_of_def)
  have f': "found (env_of (\<lambda>n. n = ''dnf'' \<or> n = ''pacman'')
              (\<lambda>c. if c = ''sudo dnf install -y mkcert'' then exits [] [] 1 else exits [] [] 0)
              True) install_cmds = [''sudo dnf install -y mkcert'', ''sudo pacman -S mkcert'']"
    by (simp add: found_def install_cmds_def env_of_def)
  have r': "\<And>c. runs_ok (env_of (\<lambda>n. n = ''dnf'' \<or> n = ''pacman'')
              (\<lambda>c. if c = ''sudo dnf install -y mkcert'' then exits [] [] 1 else exits [] [] 0)
              True) c = (c \<noteq> ''sudo dnf install -y mkcert'')"
    by (simp add: runs_ok_def env_of_def exits_def)
  have w': "\<not> which (env_of (\<lambda>n. n = ''dnf'' \<or> n = ''pacman'')
              (\<lambda>c. if c = ''sudo dnf install -y mkcert'' then exits [] [] 1 else exits [] [] 0)
              True) ''mkcert''"
    "yn_prompt (env_of (\<lambda>n. n = ''dnf'' \<or> n = ''pacman'')
              (\<lambda>c. if c = ''sudo dnf install -y mkcert'' then exits [] [] 1 else exits [] [] 0)
              True)"
    by (simp_all add: env_of_def)
  from install_tries_found_managers_in_turn
         [of "env_of (\<lambda>n. n = ''apt'') (\<lambda>c. exits [] [''E: no package'' @ nl] 100) True" sys0,
          unfolded f r]
       install_tries_found_managers_in_turn
         [of "env_of (\<lambda>n. n = ''dnf'' \<or> n = ''pacman'')
              (\<lambda>c. if c = ''sudo dnf install -y mkcert'' then exits [] [] 1 else exits [] [] 0)
              True" sys0,
          unfolded f' r']
       w w'
  show ?thesis by simp
qed

subsection \<open>The directory check\<close>



end
